theory Spec2Isabelle
  imports Complex_Main
begin

section \<open>Configuration (src/config/settings.py)\<close>

text \<open>
  The constants of \<^verbatim>\<open>HardwareConfig\<close> and \<^verbatim>\<open>ExplorerConfig\<close>. Python floats are
  modelled as reals: the code below only compares them, scales them by constants and
  truncates them, and every concrete evaluation in this file is on values where the
  real result and the float result agree after truncation.
\<close>

definition LEFT_MOTOR_FWD :: nat where "LEFT_MOTOR_FWD = 17"
definition LEFT_MOTOR_BWD :: nat where "LEFT_MOTOR_BWD = 27"
definition LEFT_MOTOR_EN :: nat where "LEFT_MOTOR_EN = 4"
definition RIGHT_MOTOR_FWD :: nat where "RIGHT_MOTOR_FWD = 5"
definition RIGHT_MOTOR_BWD :: nat where "RIGHT_MOTOR_BWD = 6"
definition RIGHT_MOTOR_EN :: nat where "RIGHT_MOTOR_EN = 13"

definition MAP_SIZE :: int where "MAP_SIZE = 1000"
definition RESOLUTION :: real where "RESOLUTION = 5 / 100"
definition MIN_DISTANCE :: real where "MIN_DISTANCE = 3 / 10"
definition TURN_SPEED :: real where "TURN_SPEED = 3 / 10"
definition FORWARD_SPEED :: real where "FORWARD_SPEED = 5 / 10"

section \<open>Channels and commands\<close>

text \<open>
  A \<^verbatim>\<open>multiprocessing.Queue\<close> is a list, oldest item first; \<^verbatim>\<open>put\<close> appends.
  The items of the motor queue are \<^verbatim>\<open>('move', (left, right))\<close> and
  \<^verbatim>\<open>('emergency_stop', None)\<close>; no other item is ever put on it.
\<close>

datatype command = Move real real | EmergencyStop

type_synonym scan_batch = "(real \<times> real) list"

section \<open>LiDARProcess (src/hardware/processes.py)\<close>

subsection \<open>Quality filter\<close>

text \<open>
  A raw reading is the triple \<^verbatim>\<open>(quality, angle, distance)\<close> that
  \<^verbatim>\<open>iter_scans\<close> yields, the distance in millimetres. On such triples no statement of
  \<^verbatim>\<open>_process_scan\<close> raises, so its handler (log, return None) has no branch here.
\<close>

type_synonym raw_reading = "int \<times> real \<times> real"

definition min_quality :: int where "min_quality = 15"
definition max_retries :: nat where "max_retries = 5"
definition retry_delay :: nat where "retry_delay = 3"

fun process_scan_loop :: "raw_reading list \<Rightarrow> scan_batch \<Rightarrow> scan_batch" where
  "process_scan_loop [] processed_scan = processed_scan"
| "process_scan_loop ((quality, angle, distance) # scan_data) processed_scan =
     process_scan_loop scan_data
       (if quality \<ge> min_quality then processed_scan @ [(angle, distance / 1000)]
        else processed_scan)"

definition process_scan :: "raw_reading list \<Rightarrow> scan_batch option" where
  "process_scan scan_data =
     (let processed_scan = process_scan_loop scan_data []
      in if processed_scan \<noteq> [] then Some processed_scan else None)"

text \<open>
  The body of the streaming loop for one scan: \<^verbatim>\<open>if processed_scan:\<close> is false for
  None and for the empty list.
\<close>

definition stream_scan :: "raw_reading list \<Rightarrow> scan_batch list \<Rightarrow> scan_batch list" where
  "stream_scan scan queue =
     (case process_scan scan of
        None \<Rightarrow> queue
      | Some processed_scan \<Rightarrow>
          if processed_scan \<noteq> [] then queue @ [processed_scan] else queue)"

definition passes :: "raw_reading \<Rightarrow> bool" where
  "passes r = (fst r \<ge> min_quality)"

definition to_point :: "raw_reading \<Rightarrow> real \<times> real" where
  "to_point r = (fst (snd r), snd (snd r) / 1000)"

section \<open>Shared shapes of the worker loops\<close>

text \<open>
  Every worker loop polls: \<^verbatim>\<open>while not self.stop_event.is_set(): if not queue.empty(): ...\<close>.
  What a loop sees from outside in one iteration is a tick: the stop event set (the loop
  condition fails), the queue empty, or an item taken from the queue. A loop may run
  forever; it is run on a finite list of ticks, and a loop that has used all of them
  without leaving is still in the loop (\<open>InLoop\<close>).
\<close>

datatype 'a tick = StopSet | QueueEmpty | Item 'a

datatype 's loop = InLoop 's | LeftLoop 's | Raised 's

fun loop_state :: "'s loop \<Rightarrow> 's" where
  "loop_state (InLoop s) = s"
| "loop_state (LeftLoop s) = s"
| "loop_state (Raised s) = s"

text \<open>
  The result of a \<^verbatim>\<open>run\<close> method: still running, returned, or left by an exception
  that nothing caught.
\<close>

datatype 's run = Running 's | Returned 's | Escaped 's

section \<open>ExplorerProcess (src/hardware/processes.py)\<close>

text \<open>
  \<^verbatim>\<open>map_data\<close> is the array \<^verbatim>\<open>np.zeros((MAP_SIZE, MAP_SIZE))\<close>, read here as the function
  from an index pair \<open>(y, x)\<close> to the cell's value. \<^verbatim>\<open>position\<close> is
  \<^verbatim>\<open>np.array([MAP_SIZE//2, MAP_SIZE//2])\<close>: an array of two integers, so a store
  into it converts the stored value to an integer. \<^verbatim>\<open>nearest\<close> starts as
  \<^verbatim>\<open>float('inf')\<close>.
\<close>

type_synonym grid = "int \<times> int \<Rightarrow> real"

datatype ext_dist = Infinite | Dist real

fun dist_less :: "real \<Rightarrow> ext_dist \<Rightarrow> bool" where
  "dist_less d Infinite = True"
| "dist_less d (Dist n) = (d < n)"

fun nearer_than :: "ext_dist \<Rightarrow> real \<Rightarrow> bool" where
  "nearer_than Infinite m = False"
| "nearer_than (Dist n) m = (n < m)"

definition radians :: "real \<Rightarrow> real" where
  "radians a = a * pi / 180"

text \<open>\<^verbatim>\<open>int(v)\<close> and the conversion of a float stored into an integer array both truncate towards zero.\<close>

definition py_int :: "real \<Rightarrow> int" where
  "py_int v = (if 0 \<le> v then \<lfloor>v\<rfloor> else \<lceil>v\<rceil>)"

definition store_int :: "real \<Rightarrow> int" where
  "store_int v = py_int v"

text \<open>\<^verbatim>\<open>a % b\<close> on floats, for a positive \<open>b\<close>.\<close>

definition float_mod :: "real \<Rightarrow> real \<Rightarrow> real" where
  "float_mod a b = a - b * of_int \<lfloor>a / b\<rfloor>"

type_synonym snapshot = "grid \<times> (int \<times> int) \<times> real"

record explorer =
  map_data :: grid
  position :: "int \<times> int"
  orientation :: real
  motor_sent :: "command list"
  map_sent :: "snapshot list"

text \<open>
  \<open>motor_sent\<close> and \<open>map_sent\<close> are what this process has put on
  \<^verbatim>\<open>self.motor_queue\<close> and \<^verbatim>\<open>self.data_queue\<close>, oldest first.
\<close>

definition explorer_start :: explorer where
  "explorer_start =
     \<lparr>map_data = (\<lambda>_. 0), position = (MAP_SIZE div 2, MAP_SIZE div 2), orientation = 0,
      motor_sent = [], map_sent = []\<rparr>"

text \<open>The \<^verbatim>\<open>for angle, dist in scan\<close> loop, on the pair (nearest, map_data); \<open>d\<close> is the source's \<^verbatim>\<open>dist\<close>.\<close>

fun scan_loop :: "int \<times> int \<Rightarrow> real \<Rightarrow> scan_batch \<Rightarrow> ext_dist \<times> grid \<Rightarrow> ext_dist \<times> grid" where
  "scan_loop pos ori [] acc = acc"
| "scan_loop pos ori ((angle, d) # scan) (nearest, m) =
     (let nearest' = (if -30 \<le> angle \<and> angle \<le> 30 \<and> dist_less d nearest then Dist d else nearest);
          rad_angle = radians (angle + ori);
          x = py_int (of_int (fst pos) + (d * cos rad_angle / RESOLUTION));
          y = py_int (of_int (snd pos) + (d * sin rad_angle / RESOLUTION));
          m' = (if 0 \<le> x \<and> x < MAP_SIZE \<and> 0 \<le> y \<and> y < MAP_SIZE then m((y, x) := 1) else m)
      in scan_loop pos ori scan (nearest', m'))"

text \<open>One iteration of the main loop that took a scan from the scan queue.\<close>

definition explorer_scan :: "scan_batch \<Rightarrow> explorer \<Rightarrow> explorer" where
  "explorer_scan scan s =
     (let (nearest, m) = scan_loop (position s) (orientation s) scan (Infinite, map_data s);
          s1 = s\<lparr>map_data := m\<rparr>;
          s2 = (if nearer_than nearest MIN_DISTANCE
                then s1\<lparr>motor_sent := motor_sent s1 @ [Move (- TURN_SPEED) TURN_SPEED],
                        orientation := float_mod (orientation s1 + 5) 360\<rparr>
                else (let p0 = store_int (of_int (fst (position s1)) + 5 / 100 * cos (radians (orientation s1)));
                          p1 = store_int (of_int (snd (position s1)) + 5 / 100 * sin (radians (orientation s1)))
                      in s1\<lparr>motor_sent := motor_sent s1 @ [Move FORWARD_SPEED FORWARD_SPEED],
                             position := (p0, p1)\<rparr>))
      in s2\<lparr>map_sent := map_sent s2 @ [(map_data s2, position s2, orientation s2)]\<rparr>)"

fun explorer_loop :: "scan_batch tick list \<Rightarrow> explorer \<Rightarrow> explorer loop" where
  "explorer_loop [] s = InLoop s"
| "explorer_loop (StopSet # ticks) s = LeftLoop s"
| "explorer_loop (QueueEmpty # ticks) s = explorer_loop ticks s"
| "explorer_loop (Item scan # ticks) s = explorer_loop ticks (explorer_scan scan s)"

text \<open>
  \<^verbatim>\<open>run\<close>: the loop, then \<^verbatim>\<open>self.motor_queue.put(('emergency_stop', None))\<close> and the
  log line. Nothing in the loop raises on numeric scan points.
\<close>

definition explorer_run :: "scan_batch tick list \<Rightarrow> explorer run" where
  "explorer_run ticks =
     (case explorer_loop ticks explorer_start of
        InLoop s \<Rightarrow> Running s
      | LeftLoop s \<Rightarrow> Returned (s\<lparr>motor_sent := motor_sent s @ [EmergencyStop]\<rparr>)
      | Raised s \<Rightarrow> Escaped s)"

text \<open>The value of \<^verbatim>\<open>nearest\<close> when the \<^verbatim>\<open>for\<close> loop over the scan has ended.\<close>

definition nearest_of :: "explorer \<Rightarrow> scan_batch \<Rightarrow> ext_dist" where
  "nearest_of s scan = fst (scan_loop (position s) (orientation s) scan (Infinite, map_data s))"

text \<open>
  For the statements: the nearer of a distance and the nearest so far, the cells that hold
  1, and the distances of the points of a batch that pass the test the code itself makes
  on the reported angle, \<^verbatim>\<open>-30 <= angle <= 30\<close>.
\<close>

fun closer :: "ext_dist \<Rightarrow> real \<Rightarrow> ext_dist" where
  "closer n d = (if dist_less d n then Dist d else n)"

definition occupied :: "grid \<Rightarrow> (int \<times> int) set" where
  "occupied m = {c. m c = 1}"

definition raw_window :: "scan_batch \<Rightarrow> real list" where
  "raw_window scan = map snd (filter (\<lambda>p. -30 \<le> fst p \<and> fst p \<le> 30) scan)"

text \<open>
  The frontal cone as the specification has it. A scan point's angle is a direction in
  degrees relative to the vehicle's heading, reported in [0, 360): its offset from the
  heading is the angle itself up to 180 and the angle less 360 beyond, so 350 is 10
  degrees to one side as 10 is to the other. A point is in the frontal cone when its
  offset lies between -30 and 30, and the nearest frontal distance is the least distance
  of such points, infinite when there is none.
\<close>

definition heading_offset :: "real \<Rightarrow> real" where
  "heading_offset angle = (let a = float_mod angle 360 in if 180 < a then a - 360 else a)"

definition in_frontal_cone :: "real \<Rightarrow> bool" where
  "in_frontal_cone angle = (-30 \<le> heading_offset angle \<and> heading_offset angle \<le> 30)"

definition frontal :: "scan_batch \<Rightarrow> real list" where
  "frontal scan = map snd (filter (\<lambda>p. in_frontal_cone (fst p)) scan)"

definition frontal_nearest :: "scan_batch \<Rightarrow> ext_dist" where
  "frontal_nearest scan = (if frontal scan = [] then Infinite else Dist (Min (set (frontal scan))))"

section \<open>MotorProcess (src/hardware/processes.py)\<close>

text \<open>
  The worker's calls on the GPIO lines are \<^verbatim>\<open>self._set_motors(pins, left, right)\<close>,
  \<^verbatim>\<open>self._emergency_stop(pins)\<close> and \<^verbatim>\<open>pin.release()\<close>. The class defines neither
  \<^verbatim>\<open>_set_motors\<close> nor \<^verbatim>\<open>_emergency_stop\<close>, so what a call does to the lines is
  not modelled: the worker's trace is the list of the calls it has made, and the hardware
  is a parameter that says, from the trace so far and the call, whether the call raises.
\<close>

datatype gpio_call = SetMotors real real | StopMotors | ReleaseLine nat

type_synonym gpio = "gpio_call list \<Rightarrow> gpio_call \<Rightarrow> bool"

text \<open>The lines of \<^verbatim>\<open>pin_configs\<close>, in the order of \<^verbatim>\<open>pins.values()\<close>.\<close>

definition motor_pins :: "nat list" where
  "motor_pins =
     [LEFT_MOTOR_FWD, LEFT_MOTOR_BWD, LEFT_MOTOR_EN, RIGHT_MOTOR_FWD, RIGHT_MOTOR_BWD, RIGHT_MOTOR_EN]"

fun dispatch :: "command \<Rightarrow> gpio_call" where
  "dispatch (Move left right) = SetMotors left right"
| "dispatch EmergencyStop = StopMotors"

text \<open>The \<^verbatim>\<open>while\<close> loop inside the \<^verbatim>\<open>try\<close>; a call that raises leaves the loop.\<close>

fun motor_loop :: "gpio \<Rightarrow> command tick list \<Rightarrow> gpio_call list \<Rightarrow> gpio_call list loop" where
  "motor_loop hw [] tr = InLoop tr"
| "motor_loop hw (StopSet # ticks) tr = LeftLoop tr"
| "motor_loop hw (QueueEmpty # ticks) tr = motor_loop hw ticks tr"
| "motor_loop hw (Item cmd # ticks) tr =
     (if hw tr (dispatch cmd) then Raised (tr @ [dispatch cmd])
      else motor_loop hw ticks (tr @ [dispatch cmd]))"

text \<open>
  The \<^verbatim>\<open>for pin in pins.values()\<close> loop of the \<^verbatim>\<open>finally\<close> block: a release that
  raises is logged and the loop goes on.
\<close>

fun release_all :: "nat list \<Rightarrow> gpio_call list \<Rightarrow> gpio_call list" where
  "release_all [] tr = tr"
| "release_all (pin # pins) tr = release_all pins (tr @ [ReleaseLine pin])"

text \<open>
  The \<^verbatim>\<open>finally\<close> block for acquired lines (\<^verbatim>\<open>if pins:\<close> holds for the six lines):
  \<^verbatim>\<open>self._emergency_stop(pins)\<close> stands outside every \<^verbatim>\<open>try\<close>, so when it raises the
  exception leaves \<^verbatim>\<open>run\<close> before the release loop.
\<close>

definition motor_finally :: "gpio \<Rightarrow> gpio_call list \<Rightarrow> gpio_call list run" where
  "motor_finally hw tr =
     (if hw tr StopMotors then Escaped (tr @ [StopMotors])
      else Returned (release_all motor_pins (tr @ [StopMotors])))"

text \<open>
  \<^verbatim>\<open>run\<close>. \<open>init_raises\<close>: \<^verbatim>\<open>_init_gpio\<close> raised, so \<^verbatim>\<open>pins\<close> is None, the
  handler logs and the \<^verbatim>\<open>finally\<close> block has nothing to do.
\<close>

definition motor_run :: "gpio \<Rightarrow> bool \<Rightarrow> command tick list \<Rightarrow> gpio_call list run" where
  "motor_run hw init_raises ticks =
     (if init_raises then Returned []
      else case motor_loop hw ticks [] of
             InLoop tr \<Rightarrow> Running tr
           | LeftLoop tr \<Rightarrow> motor_finally hw tr
           | Raised tr \<Rightarrow> motor_finally hw tr)"

text \<open>The lines on which the worker has called \<^verbatim>\<open>release\<close>.\<close>

definition release_calls :: "gpio_call list \<Rightarrow> nat list" where
  "release_calls tr = concat (map (\<lambda>c. case c of ReleaseLine p \<Rightarrow> [p] | _ \<Rightarrow> []) tr)"

section \<open>LiDARProcess: the retry loop\<close>

text \<open>
  The device calls of the worker, in the words of the driver's interface: the constructor
  \<^verbatim>\<open>RPLidar(port, baudrate)\<close>, which gives the handle, \<^verbatim>\<open>stop\<close>, \<^verbatim>\<open>disconnect\<close>,
  \<^verbatim>\<open>connect\<close>, \<^verbatim>\<open>start_motor\<close>, \<^verbatim>\<open>get_info\<close>, \<^verbatim>\<open>get_health\<close> and
  \<^verbatim>\<open>stop_motor\<close>; and \<^verbatim>\<open>time.sleep\<close> with its seconds. As for the motor lines, the
  hardware says from the trace and the call whether the call raises; a sleep never does.
\<close>

datatype rplidar = RPLidar

datatype lidar_call =
  NewRPLidar | StopScan | Disconnect | Connect | StartMotor | GetInfo | GetHealth | StopMotor
  | Sleep nat

type_synonym lidar_hw = "lidar_call list \<Rightarrow> lidar_call \<Rightarrow> bool"

record lidar_state =
  retry_count :: nat
  lidar :: "rplidar option"
  scan_sent :: "scan_batch list"
  calls :: "lidar_call list"

definition lidar_start :: lidar_state where
  "lidar_start = \<lparr>retry_count = 0, lidar = None, scan_sent = [], calls = []\<rparr>"

fun raises :: "lidar_hw \<Rightarrow> lidar_call list \<Rightarrow> lidar_call \<Rightarrow> bool" where
  "raises hw tr (Sleep n) = False"
| "raises hw tr c = hw tr c"

text \<open>Calls made one after the other until one raises; the flag says that one did.\<close>

fun do_calls :: "lidar_hw \<Rightarrow> lidar_call list \<Rightarrow> lidar_call list \<Rightarrow> bool \<times> lidar_call list" where
  "do_calls hw [] tr = (False, tr)"
| "do_calls hw (c # cs) tr =
     (if raises hw tr c then (True, tr @ [c]) else do_calls hw cs (tr @ [c]))"

text \<open>
  \<^verbatim>\<open>_init_lidar\<close>: the handle is made first and kept in a local variable; the reset, the
  connection, the motor start and the two queries follow, and an exception of any of them
  is logged and raised again (\<open>Inl\<close>), so that the caller never gets the handle. Only
  when all calls return does the caller get it (\<open>Inr\<close>).
\<close>

definition init_calls :: "lidar_call list" where
  "init_calls =
     [NewRPLidar, StopScan, Disconnect, Sleep 1, Connect, StartMotor, Sleep 1, GetInfo, GetHealth]"

definition init_lidar :: "lidar_hw \<Rightarrow> lidar_call list \<Rightarrow> lidar_call list + rplidar \<times> lidar_call list" where
  "init_lidar hw tr =
     (case do_calls hw init_calls tr of
        (True, tr1) \<Rightarrow> Inl tr1
      | (False, tr1) \<Rightarrow> Inr (RPLidar, tr1))"

text \<open>
  \<^verbatim>\<open>_cleanup_lidar\<close>: nothing for None; otherwise stop_motor, stop, disconnect inside one
  \<^verbatim>\<open>try\<close>, so the first call that raises ends the teardown (logged, not raised).
\<close>

definition cleanup_lidar :: "lidar_hw \<Rightarrow> rplidar option \<Rightarrow> lidar_call list \<Rightarrow> lidar_call list" where
  "cleanup_lidar hw l tr =
     (case l of
        None \<Rightarrow> tr
      | Some _ \<Rightarrow>
          if hw tr StopMotor then tr @ [StopMotor]
          else if hw (tr @ [StopMotor]) StopScan then tr @ [StopMotor, StopScan]
          else tr @ [StopMotor, StopScan, Disconnect])"

text \<open>
  One pass of the outer \<^verbatim>\<open>while\<close> as the worker sees it from outside: whether the stop
  event is set at the loop condition, the scans \<^verbatim>\<open>iter_scans\<close> yields and that the
  inner loop processes, and how the inner loop ends: \<^verbatim>\<open>iter_scans\<close> raises, the stop
  event is seen (\<^verbatim>\<open>break\<close>), or the iterator ends.
\<close>

datatype stream_end = StreamRaises | StopSeen | StreamEnds

datatype round = Round (stop_set: bool) (scans: "raw_reading list list") (ending: stream_end)

text \<open>The inner \<^verbatim>\<open>for\<close> loop over the scans of a round, with its end.\<close>

definition lidar_stream :: "round \<Rightarrow> lidar_state \<Rightarrow> lidar_state + lidar_state" where
  "lidar_stream r s =
     (let s1 = s\<lparr>scan_sent := foldl (\<lambda>queue scan. stream_scan scan queue) (scan_sent s) (scans r)\<rparr>
      in if ending r = StreamRaises then Inl s1 else Inr s1)"

text \<open>
  The \<^verbatim>\<open>try\<close> body: \<open>Inl\<close> when an exception reaches the handler. When
  \<^verbatim>\<open>_init_lidar\<close> raises, the assignment to \<^verbatim>\<open>lidar\<close> does not happen: the variable
  is still None in the handler.
\<close>

definition lidar_try :: "lidar_hw \<Rightarrow> round \<Rightarrow> lidar_state \<Rightarrow> lidar_state + lidar_state" where
  "lidar_try hw r s =
     (if lidar s = None
      then (case init_lidar hw (calls s) of
              Inl tr \<Rightarrow> Inl (s\<lparr>calls := tr\<rparr>)
            | Inr (handle, tr) \<Rightarrow>
                lidar_stream r (s\<lparr>lidar := Some handle, retry_count := 0, calls := tr\<rparr>))
      else lidar_stream r s)"

text \<open>The \<^verbatim>\<open>except\<close> block; the flag says whether the loop goes on (no \<^verbatim>\<open>break\<close>).\<close>

definition on_error :: "lidar_hw \<Rightarrow> lidar_state \<Rightarrow> bool \<times> lidar_state" where
  "on_error hw s =
     (let s1 = s\<lparr>retry_count := retry_count s + 1, lidar := None,
                 calls := cleanup_lidar hw (lidar s) (calls s)\<rparr>
      in if retry_count s1 < max_retries then (True, s1\<lparr>calls := calls s1 @ [Sleep retry_delay]\<rparr>)
         else (False, s1))"

fun lidar_loop :: "lidar_hw \<Rightarrow> round list \<Rightarrow> lidar_state \<Rightarrow> lidar_state loop" where
  "lidar_loop hw [] s = InLoop s"
| "lidar_loop hw (r # rounds) s =
     (if \<not> (\<not> stop_set r \<and> retry_count s < max_retries) then LeftLoop s
      else case lidar_try hw r s of
             Inr s1 \<Rightarrow> lidar_loop hw rounds s1
           | Inl s1 \<Rightarrow>
               (case on_error hw s1 of
                  (True, s2) \<Rightarrow> lidar_loop hw rounds s2
                | (False, s2) \<Rightarrow> LeftLoop s2))"

text \<open>\<^verbatim>\<open>run\<close>: the loop, then the final \<^verbatim>\<open>_cleanup_lidar(lidar)\<close>.\<close>

definition lidar_run :: "lidar_hw \<Rightarrow> round list \<Rightarrow> lidar_state run" where
  "lidar_run hw rounds =
     (case lidar_loop hw rounds lidar_start of
        InLoop s \<Rightarrow> Running s
      | LeftLoop s \<Rightarrow> Returned (s\<lparr>calls := cleanup_lidar hw (lidar s) (calls s)\<rparr>)
      | Raised s \<Rightarrow> Escaped s)"

text \<open>
  For the statements: the state the worker's calls leave the device in, by the driver's
  contract: a call that raised changes nothing, \<^verbatim>\<open>connect\<close> and \<^verbatim>\<open>disconnect\<close>
  open and close the connection, \<^verbatim>\<open>start_motor\<close> and \<^verbatim>\<open>stop_motor\<close> start and stop
  the motor. \<open>device_after hw done tr dev\<close> replays the calls \<open>tr\<close> made after the
  calls \<open>done\<close>.
\<close>

record device =
  connected :: bool
  motor_running :: bool

fun effect :: "lidar_call \<Rightarrow> device \<Rightarrow> device" where
  "effect Connect dev = dev\<lparr>connected := True\<rparr>"
| "effect Disconnect dev = dev\<lparr>connected := False\<rparr>"
| "effect StartMotor dev = dev\<lparr>motor_running := True\<rparr>"
| "effect StopMotor dev = dev\<lparr>motor_running := False\<rparr>"
| "effect c dev = dev"

fun device_after :: "lidar_hw \<Rightarrow> lidar_call list \<Rightarrow> lidar_call list \<Rightarrow> device \<Rightarrow> device" where
  "device_after hw done [] dev = dev"
| "device_after hw done (c # cs) dev =
     device_after hw (done @ [c]) cs (if raises hw done c then dev else effect c dev)"

definition device_of :: "lidar_hw \<Rightarrow> lidar_call list \<Rightarrow> device" where
  "device_of hw tr = device_after hw [] tr \<lparr>connected = False, motor_running = False\<rparr>"

section \<open>VehicleController (src/main.py)\<close>

text \<open>
  The handlers are coroutines on one event loop and contain no \<^verbatim>\<open>await\<close> between
  reading and writing the controller's fields other than the first read of the request,
  so each runs as one step on the controller's state.

  \<open>processes\<close> is the dictionary \<^verbatim>\<open>self.processes\<close>, from a name to the process
  object, an object being the number of its creation. \<open>started\<close> lists the
  \<^verbatim>\<open>ExplorerProcess\<close> objects that were started and not yet terminated, whether the
  dictionary still holds them or not; \<open>created\<close> counts the process objects made so
  far. \<^verbatim>\<open>Process.start\<close>, \<^verbatim>\<open>terminate\<close> and \<^verbatim>\<open>join\<close> are taken to succeed.
  \<^verbatim>\<open>terminate\<close> kills the process where it stands: nothing after the explorer's loop
  runs, so a terminated explorer puts nothing on the motor queue.
\<close>

record controller =
  mode :: string
  processes :: "string \<rightharpoonup> nat"
  motor_queue :: "command list"
  started :: "nat list"
  created :: nat

definition controller_start :: controller where
  "controller_start =
     \<lparr>mode = ''manual'',
      processes = [''lidar'' \<mapsto> 0, ''camera'' \<mapsto> 1, ''motor'' \<mapsto> 2],
      motor_queue = [], started = [], created = 3\<rparr>"

text \<open>A response is its status and its body.\<close>

type_synonym response = "nat \<times> string"

text \<open>
  An exception of the request handling: a \<^verbatim>\<open>ValueError\<close> (which a JSON decoding error
  is), or any other exception with its message \<^verbatim>\<open>str(e)\<close>.
\<close>

datatype exn = ValueError | OtherError string

text \<open>
  \<^verbatim>\<open>float(data[key])\<close>: the number, or the exception of the lookup or of the conversion.
  A control request is the exception of \<^verbatim>\<open>await request.json()\<close>, or the body with
  what its two fields convert to.
\<close>

datatype field = Number real | Fails exn

datatype control_request = NoJson exn | Json field field

definition validate_speed :: "real \<Rightarrow> bool" where
  "validate_speed speed = (-1 \<le> speed \<and> speed \<le> 1)"

fun control_error :: "exn \<Rightarrow> response" where
  "control_error ValueError = (400, ''Invalid speed format'')"
| "control_error (OtherError msg) = (500, msg)"

definition handle_control :: "control_request \<Rightarrow> controller \<Rightarrow> response \<times> controller" where
  "handle_control request c =
     (if mode c \<noteq> ''manual'' then ((400, ''Not in manual mode''), c)
      else case request of
             NoJson e \<Rightarrow> (control_error e, c)
           | Json (Fails e) right_field \<Rightarrow> (control_error e, c)
           | Json (Number left) (Fails e) \<Rightarrow> (control_error e, c)
           | Json (Number left) (Number right) \<Rightarrow>
               if \<not> (validate_speed left \<and> validate_speed right)
               then ((400, ''Invalid speed values''), c)
               else ((200, ''OK''), c\<lparr>motor_queue := motor_queue c @ [Move left right]\<rparr>))"

text \<open>
  A mode request: the exception of \<^verbatim>\<open>request.json()\<close> or of \<^verbatim>\<open>data['mode']\<close>, or
  the value of the field (a value that is no string is in neither list and equals no
  mode, as a string other than the two mode names).
\<close>

datatype mode_request = NoMode string | NewMode string

text \<open>The block both handlers share: terminate, join and forget the explorer, if there is one.\<close>

definition stop_explorer :: "controller \<Rightarrow> controller" where
  "stop_explorer c =
     (case processes c ''explorer'' of
        None \<Rightarrow> c
      | Some p \<Rightarrow> c\<lparr>started := removeAll p (started c),
                     processes := (processes c)(''explorer'' := None)\<rparr>)"

definition handle_mode :: "mode_request \<Rightarrow> controller \<Rightarrow> response \<times> controller" where
  "handle_mode request c =
     (case request of
        NoMode msg \<Rightarrow> ((500, msg), c)
      | NewMode new_mode \<Rightarrow>
          if new_mode \<notin> set [''manual'', ''explore''] then ((400, ''Invalid mode''), c)
          else if new_mode = mode c then ((200, ''Mode unchanged''), c)
          else
            (let c1 = (if new_mode = ''explore''
                       then c\<lparr>processes := (processes c)(''explorer'' \<mapsto> created c),
                              started := started c @ [created c],
                              created := created c + 1\<rparr>
                       else stop_explorer c)
             in ((200, ''Mode changed to '' @ new_mode), c1\<lparr>mode := new_mode\<rparr>)))"

definition handle_emergency :: "controller \<Rightarrow> response \<times> controller" where
  "handle_emergency c =
     (let c1 = c\<lparr>motor_queue := motor_queue c @ [EmergencyStop]\<rparr>;
          c2 = stop_explorer c1
      in ((200, ''Emergency stop activated''), c2\<lparr>mode := ''manual''\<rparr>))"

text \<open>The operations of the control surface that write the controller's state, and their runs.\<close>

datatype operation = Control control_request | SetMode mode_request | Emergency

fun step :: "controller \<Rightarrow> operation \<Rightarrow> controller" where
  "step c (Control request) = snd (handle_control request c)"
| "step c (SetMode request) = snd (handle_mode request c)"
| "step c Emergency = snd (handle_emergency c)"

definition after :: "operation list \<Rightarrow> controller" where
  "after ops = foldl step controller_start ops"

text \<open>
  For the statements: the speeds a control request carries, and the condition the
  supervisor is meant to keep between its mode, its dictionary and the explorers it has
  started.
\<close>

fun field_speed :: "field \<Rightarrow> real list" where
  "field_speed (Number v) = [v]"
| "field_speed (Fails e) = []"

fun speeds :: "control_request \<Rightarrow> real list" where
  "speeds (NoJson e) = []"
| "speeds (Json left_field right_field) = field_speed left_field @ field_speed right_field"

definition navigator_invariant :: "controller \<Rightarrow> bool" where
  "navigator_invariant c =
     ((processes c ''explorer'' \<noteq> None) = (mode c = ''explore'') \<and>
      started c = (case processes c ''explorer'' of None \<Rightarrow> [] | Some p \<Rightarrow> [p]) \<and>
      (mode c = ''manual'' \<or> mode c = ''explore''))"

section \<open>Properties of the scanner's quality filter\<close>

lemma process_scan_loop_eq:
  "process_scan_loop scan_data acc = acc @ map to_point (filter passes scan_data)"
  by (induction scan_data acc rule: process_scan_loop.induct)
     (simp_all add: passes_def to_point_def)

text \<open>
  C6. For every raw batch the scanner streams, the batch pushed to the scan channel is
  exactly the readings of quality at least \<open>min_quality\<close>, in their order, each as
  (angle, distance / 1000); and when no reading passes, the channel is left as it was.
\<close>

theorem lidar_quality_filter:
  "stream_scan scan queue =
     (if filter passes scan = [] then queue
      else queue @ [map to_point (filter passes scan)])"
  by (simp add: stream_scan_def process_scan_def process_scan_loop_eq Let_def)

section \<open>Properties of the explorer\<close>

lemma scan_loop_nearest:
  "fst (scan_loop pos ori scan (n, m)) = foldl closer n (raw_window scan)"
  by (induction pos ori scan "(n, m)" arbitrary: n m rule: scan_loop.induct)
     (simp_all add: raw_window_def Let_def)

lemma foldl_closer_Dist:
  "foldl closer (Dist a) ds = Dist (Min (insert a (set ds)))"
proof (induction ds arbitrary: a)
  case Nil
  then show ?case by simp
next
  case (Cons d ds)
  have fin: "finite (insert d (set ds))" by simp
  have le: "Min (insert d (set ds)) \<le> d" by (rule Min_le[OF fin]) simp
  have split: "Min (insert a (insert d (set ds))) = min a (Min (insert d (set ds)))"
    by (rule Min_insert[OF fin]) simp
  show ?case
  proof (cases "d < a")
    case True
    from le True have "min a (Min (insert d (set ds))) = Min (insert d (set ds))" by linarith
    with True Cons[of d] split show ?thesis by simp
  next
    case False
    have "Min (insert d (insert a (set ds))) = Min (insert a (set ds))"
    proof -
      have f2: "finite (insert a (set ds))" by simp
      have "Min (insert d (insert a (set ds))) = min d (Min (insert a (set ds)))"
        by (rule Min_insert[OF f2]) simp
      moreover have "Min (insert a (set ds)) \<le> a" by (rule Min_le[OF f2]) simp
      with False have "min d (Min (insert a (set ds))) = Min (insert a (set ds))" by linarith
      ultimately show ?thesis by (simp only:)
    qed
    with False Cons[of a] show ?thesis by (simp add: insert_commute)
  qed
qed

lemma foldl_closer_Inf:
  "foldl closer Infinite ds = (if ds = [] then Infinite else Dist (Min (set ds)))"
  by (cases ds) (simp_all add: foldl_closer_Dist)

lemma nearest_of_eq: "nearest_of s scan = (if raw_window scan = [] then Infinite else Dist (Min (set (raw_window scan))))"
  by (simp add: nearest_of_def scan_loop_nearest foldl_closer_Inf)

lemma nearer_than_nearest:
  "nearer_than (nearest_of s scan) MIN_DISTANCE = (\<exists>d \<in> set (raw_window scan). d < MIN_DISTANCE)"
  by (cases "raw_window scan = []") (simp_all add: nearest_of_eq Min_less_iff)

lemma explorer_scan_motor_sent:
  "motor_sent (explorer_scan scan s) =
     motor_sent s @ [if nearer_than (nearest_of s scan) MIN_DISTANCE
                     then Move (- TURN_SPEED) TURN_SPEED else Move FORWARD_SPEED FORWARD_SPEED]"
  by (simp add: explorer_scan_def nearest_of_def Let_def split: prod.splits)

lemma explorer_scan_turn:
  "nearer_than (nearest_of s scan) MIN_DISTANCE \<Longrightarrow>
     orientation (explorer_scan scan s) = float_mod (orientation s + 5) 360 \<and>
     position (explorer_scan scan s) = position s"
  by (auto simp: explorer_scan_def nearest_of_def Let_def split: prod.splits)

lemma float_mod_range: "0 < b \<Longrightarrow> 0 \<le> float_mod a b \<and> float_mod a b < b"
proof -
  assume b: "0 < b"
  have 1: "of_int \<lfloor>a / b\<rfloor> * b \<le> a" by (rule floor_divide_lower[OF b])
  have 2: "a < (of_int \<lfloor>a / b\<rfloor> + 1) * b" by (rule floor_divide_upper[OF b])
  from 1 2 show ?thesis by (simp add: float_mod_def algebra_simps)
qed

lemma explorer_scan_forward:
  "\<not> nearer_than (nearest_of s scan) MIN_DISTANCE \<Longrightarrow>
     orientation (explorer_scan scan s) = orientation s \<and>
     position (explorer_scan scan s) =
       (store_int (of_int (fst (position s)) + 5 / 100 * cos (radians (orientation s))),
        store_int (of_int (snd (position s)) + 5 / 100 * sin (radians (orientation s))))"
  by (auto simp: explorer_scan_def nearest_of_def Let_def split: prod.splits)

lemma raw_window_example: "raw_window [(0, 1)] = [1]"
  by (simp add: raw_window_def)

text \<open>
  What the loop computes: \<open>nearest\<close> is the least distance among the points whose
  reported angle passes the code's test, infinite when there is none, and the explorer
  turns exactly when such a distance is under \<open>MIN_DISTANCE\<close>. The orientation plays
  no part in the test.
\<close>

lemma nearest_of_raw_window:
  "nearest_of s scan = (if raw_window scan = [] then Infinite else Dist (Min (set (raw_window scan)))) \<and>
   nearer_than (nearest_of s scan) MIN_DISTANCE = (\<exists>d \<in> set (raw_window scan). d < MIN_DISTANCE) \<and>
   nearer_than Infinite MIN_DISTANCE = False"
proof (intro conjI)
  show "nearest_of s scan = (if raw_window scan = [] then Infinite else Dist (Min (set (raw_window scan))))"
    by (rule nearest_of_eq)
  show "nearer_than (nearest_of s scan) MIN_DISTANCE = (\<exists>d \<in> set (raw_window scan). d < MIN_DISTANCE)"
    by (rule nearer_than_nearest)
  show "nearer_than Infinite MIN_DISTANCE = False"
    by simp
qed

lemma scan_loop_cell:
  "snd (scan_loop pos ori scan (n, m)) c = m c \<or> snd (scan_loop pos ori scan (n, m)) c = 1"
proof (induction scan arbitrary: n m)
  case Nil
  show ?case by simp
next
  case (Cons p scan)
  obtain angle d where p: "p = (angle, d)" by (cases p)
  define n' where "n' = (if -30 \<le> angle \<and> angle \<le> 30 \<and> dist_less d n then Dist d else n)"
  define x where "x = py_int (of_int (fst pos) + (d * cos (radians (angle + ori)) / RESOLUTION))"
  define y where "y = py_int (of_int (snd pos) + (d * sin (radians (angle + ori)) / RESOLUTION))"
  define m' where "m' = (if 0 \<le> x \<and> x < MAP_SIZE \<and> 0 \<le> y \<and> y < MAP_SIZE then m((y, x) := 1) else m)"
  have unfold: "scan_loop pos ori (p # scan) (n, m) = scan_loop pos ori scan (n', m')"
    by (simp add: p n'_def x_def y_def m'_def Let_def)
  have body: "m' c = m c \<or> m' c = 1" by (simp add: m'_def)
  from Cons[of n' m'] body show ?case unfolding unfold by auto
qed

lemma explorer_scan_map_data:
  "map_data (explorer_scan scan s) =
     snd (scan_loop (position s) (orientation s) scan (Infinite, map_data s))"
  by (auto simp: explorer_scan_def Let_def split: prod.splits)

lemma explorer_scan_cell:
  "map_data (explorer_scan scan s) c = map_data s c \<or> map_data (explorer_scan scan s) c = 1"
  unfolding explorer_scan_map_data by (rule scan_loop_cell)

lemma explorer_loop_cell:
  "map_data (loop_state (explorer_loop ticks s)) c = map_data s c \<or>
   map_data (loop_state (explorer_loop ticks s)) c = 1"
proof (induction ticks s rule: explorer_loop.induct)
  case (4 scan ticks s)
  then show ?case using explorer_scan_cell[of scan s c] by auto
qed simp_all

lemma occupied_mono:
  assumes "\<And>c. m' c = m c \<or> m' c = (1::real)"
  shows "occupied m \<subseteq> occupied m'"
proof
  fix c assume "c \<in> occupied m"
  then have "m c = 1" by (simp add: occupied_def)
  with assms[of c] have "m' c = 1" by auto
  then show "c \<in> occupied m'" by (simp add: occupied_def)
qed

text \<open>
  C10. Within one run of the explorer, an iteration of its loop leaves every cell as it
  was or sets it to 1: the occupied cells before a scan are occupied after it, and the
  occupied cells at any moment stay occupied through every later tick of the loop.
\<close>

theorem explorer_grid_monotone:
  "occupied (map_data s) \<subseteq> occupied (map_data (explorer_scan scan s)) \<and>
   occupied (map_data s) \<subseteq> occupied (map_data (loop_state (explorer_loop ticks s))) \<and>
   (map_data (loop_state (explorer_loop ticks s)) c = map_data s c \<or>
    map_data (loop_state (explorer_loop ticks s)) c = 1)"
proof -
  have 1: "occupied (map_data s) \<subseteq> occupied (map_data (explorer_scan scan s))"
    by (rule occupied_mono) (rule explorer_scan_cell)
  have 2: "occupied (map_data s) \<subseteq> occupied (map_data (loop_state (explorer_loop ticks s)))"
    by (rule occupied_mono) (rule explorer_loop_cell)
  from 1 2 explorer_loop_cell[of ticks s c] show ?thesis by simp
qed

lemma explorer_loop_sent:
  "EmergencyStop \<notin> set (motor_sent s) \<Longrightarrow>
     EmergencyStop \<notin> set (motor_sent (loop_state (explorer_loop ticks s)))"
  by (induction ticks s rule: explorer_loop.induct) (simp_all add: explorer_scan_motor_sent)

lemma explorer_loop_exit:
  "explorer_loop ticks s \<noteq> Raised s' \<and>
   ((\<exists>s'. explorer_loop ticks s = LeftLoop s') = (StopSet \<in> set ticks))"
  by (induction ticks s rule: explorer_loop.induct) simp_all

lemma nearest_example: "nearest_of s [(0, 1), (90, 1)] = Dist 1"
  by (simp add: nearest_of_eq raw_window_def)

lemma heading_offset_examples:
  "heading_offset 350 = -10" "heading_offset 10 = 10" "heading_offset 0 = 0" "heading_offset 90 = 90"
  by (simp_all add: heading_offset_def float_mod_def)

text \<open>On the half turn from 0 to 180 the code's test and the frontal cone agree.\<close>

lemma in_frontal_cone_right_half:
  assumes "0 \<le> angle" and "angle \<le> 180"
  shows "in_frontal_cone angle = (-30 \<le> angle \<and> angle \<le> 30)"
proof -
  have "\<lfloor>angle / 360\<rfloor> = 0" using assms by (simp add: floor_eq_iff)
  then have "float_mod angle 360 = angle" by (simp add: float_mod_def)
  with assms show ?thesis by (simp add: in_frontal_cone_def heading_offset_def)
qed

text \<open>
  C2. A batch with one point at 350 degrees, 10 degrees off the heading, at 0.1 m: the
  point is in the frontal cone and the nearest frontal distance is 0.1, but the code's
  test on the reported angle fails for 350, \<open>nearest\<close> stays infinite and the explorer
  drives forward. The same obstacle 10 degrees to the other side, reported at 10, gives
  \<open>nearest\<close> = 0.1 and a turn.
\<close>

theorem explorer_nearest_misses_left_cone:
  "in_frontal_cone 350 \<and>
   frontal_nearest [(350, 1 / 10)] = Dist (1 / 10) \<and>
   nearest_of s [(350, 1 / 10)] = Infinite \<and>
   motor_sent (explorer_scan [(350, 1 / 10)] s) = motor_sent s @ [Move FORWARD_SPEED FORWARD_SPEED] \<and>
   frontal_nearest [(10, 1 / 10)] = Dist (1 / 10) \<and>
   nearest_of s [(10, 1 / 10)] = Dist (1 / 10) \<and>
   motor_sent (explorer_scan [(10, 1 / 10)] s) = motor_sent s @ [Move (- TURN_SPEED) TURN_SPEED]"
proof -
  have cone: "in_frontal_cone 350" "in_frontal_cone 10"
    by (simp_all add: in_frontal_cone_def heading_offset_examples)
  have claimed: "frontal_nearest [(350, 1 / 10)] = Dist (1 / 10)"
    "frontal_nearest [(10, 1 / 10)] = Dist (1 / 10)"
    using cone by (simp_all add: frontal_nearest_def frontal_def)
  have code: "nearest_of s [(350, 1 / 10)] = Infinite" "nearest_of s [(10, 1 / 10)] = Dist (1 / 10)"
    by (simp_all add: nearest_of_eq raw_window_def)
  from cone claimed code show ?thesis
    by (simp add: explorer_scan_motor_sent MIN_DISTANCE_def)
qed

lemma small_int_multiple:
  fixes c :: real
  assumes "of_int k = 5 / 100 * c" and "\<bar>c\<bar> \<le> 1"
  shows "c = 0"
proof -
  from assms have "\<bar>real_of_int k\<bar> < 1" by (simp add: abs_mult)
  then have "k = 0" by linarith
  with assms(1) show ?thesis by simp
qed

text \<open>
  Whatever the pose and the scan, the position after a forward step is not the position
  advanced by 0.05 along the orientation: the array holds integers, and a step of length
  0.05 changes at least one coordinate by a fraction.
\<close>

lemma forward_step_not_exact:
  assumes "\<not> nearer_than (nearest_of s scan) MIN_DISTANCE"
  shows "(real_of_int (fst (position (explorer_scan scan s))),
          real_of_int (snd (position (explorer_scan scan s)))) \<noteq>
         (of_int (fst (position s)) + 5 / 100 * cos (radians (orientation s)),
          of_int (snd (position s)) + 5 / 100 * sin (radians (orientation s)))"
proof
  let ?t = "radians (orientation s)"
  let ?p = "position (explorer_scan scan s)"
  assume eq: "(real_of_int (fst ?p), real_of_int (snd ?p)) =
     (of_int (fst (position s)) + 5 / 100 * cos ?t, of_int (snd (position s)) + 5 / 100 * sin ?t)"
  then have c: "of_int (fst ?p - fst (position s)) = 5 / 100 * cos ?t"
    and s: "of_int (snd ?p - snd (position s)) = 5 / 100 * sin ?t" by simp_all
  have "cos ?t = 0" by (rule small_int_multiple[OF c]) (rule abs_cos_le_one)
  moreover have "sin ?t = 0" by (rule small_int_multiple[OF s]) (rule abs_sin_le_one)
  ultimately show False using sin_cos_squared_add[of ?t] by simp
qed

text \<open>
  C3. The first scan \<open>[(0, 1)]\<close> at the starting pose (position (500, 500), orientation
  0) has its nearest frontal point at 1.0, not under \<open>MIN_DISTANCE\<close>: the explorer
  sends \<open>Move FORWARD_SPEED FORWARD_SPEED\<close>, and the position it stores is again
  (500, 500), since \<open>500 + 0.05 * cos 0\<close> is converted to the integer 500 when it is
  stored into the integer array. The claim's advance to (500.05, 500) does not happen.
\<close>

theorem explorer_position_truncated:
  "position (explorer_scan [(0, 1)] explorer_start) = (500, 500) \<and>
   motor_sent (explorer_scan [(0, 1)] explorer_start) = [Move FORWARD_SPEED FORWARD_SPEED] \<and>
   position explorer_start = (500, 500) \<and> orientation explorer_start = 0"
proof -
  have far: "\<not> nearer_than (nearest_of explorer_start [(0, 1)]) MIN_DISTANCE"
    unfolding nearer_than_nearest raw_window_example by (simp add: MIN_DISTANCE_def)
  have p: "store_int (500 + 5 / 100) = 500" "store_int 500 = 500"
    by (simp_all add: store_int_def py_int_def)
  show ?thesis
    using explorer_scan_forward[OF far] far p
    by (simp add: explorer_scan_motor_sent explorer_start_def radians_def MAP_SIZE_def)
qed

text \<open>
  C9, as the code has it. When the explorer's loop ends (the stop event was seen), the
  explorer itself puts an emergency stop on the motor queue, as its last command and its
  only emergency stop; while the loop runs it has put none; and the loop ends exactly when
  a tick shows the stop event set.
\<close>

theorem explorer_stop_on_exit:
  "(case explorer_run ticks of
      Returned s \<Rightarrow> StopSet \<in> set ticks \<and> motor_sent s \<noteq> [] \<and>
        last (motor_sent s) = EmergencyStop \<and> EmergencyStop \<notin> set (butlast (motor_sent s))
    | Running s \<Rightarrow> StopSet \<notin> set ticks \<and> EmergencyStop \<notin> set (motor_sent s)
    | Escaped s \<Rightarrow> False)"
proof (cases "explorer_loop ticks explorer_start")
  case (InLoop s)
  have "EmergencyStop \<notin> set (motor_sent (loop_state (explorer_loop ticks explorer_start)))"
    by (rule explorer_loop_sent) (simp add: explorer_start_def)
  moreover have "StopSet \<notin> set ticks"
    using explorer_loop_exit[of ticks explorer_start] InLoop by simp
  ultimately show ?thesis using InLoop by (simp add: explorer_run_def)
next
  case (LeftLoop s)
  have "EmergencyStop \<notin> set (motor_sent (loop_state (explorer_loop ticks explorer_start)))"
    by (rule explorer_loop_sent) (simp add: explorer_start_def)
  moreover have "StopSet \<in> set ticks"
    using explorer_loop_exit[of ticks explorer_start] LeftLoop by simp
  ultimately show ?thesis using LeftLoop by (simp add: explorer_run_def)
next
  case (Raised s)
  then show ?thesis using explorer_loop_exit[of ticks explorer_start s] by simp
qed

text \<open>
  C9 as stated fails: with the stop event set at the first check, the explorer returns
  having put exactly one command on the motor queue, the emergency stop.
\<close>

theorem explorer_sends_stop:
  "explorer_run [StopSet] = Returned (explorer_start\<lparr>motor_sent := [EmergencyStop]\<rparr>)"
  by (simp add: explorer_run_def explorer_start_def)

section \<open>Properties of the controller\<close>

lemma invariant_start: "navigator_invariant controller_start"
  by (simp add: navigator_invariant_def controller_start_def)

lemma invariant_control: "navigator_invariant c \<Longrightarrow> navigator_invariant (snd (handle_control request c))"
  by (auto simp: navigator_invariant_def handle_control_def split: control_request.splits field.splits)

lemma invariant_mode: "navigator_invariant c \<Longrightarrow> navigator_invariant (snd (handle_mode request c))"
  by (auto simp: navigator_invariant_def handle_mode_def stop_explorer_def Let_def
      split: mode_request.splits option.splits)

lemma invariant_emergency: "navigator_invariant c \<Longrightarrow> navigator_invariant (snd (handle_emergency c))"
  by (auto simp: navigator_invariant_def handle_emergency_def stop_explorer_def Let_def
      split: option.splits)

lemma invariant_step: "navigator_invariant c \<Longrightarrow> navigator_invariant (step c operation)"
  by (cases operation) (simp_all add: invariant_control invariant_mode invariant_emergency)

lemma invariant_after: "navigator_invariant (after ops)"
  unfolding after_def
  by (induction ops rule: rev_induct) (simp_all add: invariant_start invariant_step)

text \<open>
  C5. After every sequence of control, set-mode and emergency-stop requests from the
  starting state, the dictionary holds an explorer exactly when the mode is explore; the
  explorers started and not terminated are exactly the one the dictionary holds, so there
  is at most one, and there is one exactly when the mode is explore.
\<close>

theorem supervisor_navigator:
  "((processes (after ops) ''explorer'' \<noteq> None) = (mode (after ops) = ''explore'')) \<and>
   started (after ops) = (case processes (after ops) ''explorer'' of None \<Rightarrow> [] | Some p \<Rightarrow> [p]) \<and>
   length (started (after ops)) \<le> 1 \<and>
   (length (started (after ops)) = 1) = (mode (after ops) = ''explore'')"
  using invariant_after[of ops]
  by (auto simp: navigator_invariant_def split: option.splits)

lemma control_error_status: "fst (control_error e) \<noteq> 200"
  by (cases e) simp_all

text \<open>
  C7. A control request that carries a speed outside [-1, 1] is rejected (a status other
  than 200, the state unchanged) in every mode; a request made while the mode is not
  manual is answered 400 "Not in manual mode" and changes nothing; the motor queue changes
  only in manual mode on two speeds within [-1, 1], by one \<open>Move\<close> of these speeds at its
  end; such a request is always accepted; and no request changes anything but the motor
  queue.
\<close>

theorem handle_control_validation:
  "((\<exists>v \<in> set (speeds request). \<not> validate_speed v) \<longrightarrow>
      fst (fst (handle_control request c)) \<noteq> 200 \<and> snd (handle_control request c) = c) \<and>
   (mode c \<noteq> ''manual'' \<longrightarrow> handle_control request c = ((400, ''Not in manual mode''), c)) \<and>
   (motor_queue (snd (handle_control request c)) \<noteq> motor_queue c \<longrightarrow>
      mode c = ''manual'' \<and>
      (\<exists>l r. request = Json (Number l) (Number r) \<and> validate_speed l \<and> validate_speed r \<and>
             motor_queue (snd (handle_control request c)) = motor_queue c @ [Move l r])) \<and>
   (mode c = ''manual'' \<and> validate_speed l \<and> validate_speed r \<longrightarrow>
      handle_control (Json (Number l) (Number r)) c =
        ((200, ''OK''), c\<lparr>motor_queue := motor_queue c @ [Move l r]\<rparr>)) \<and>
   snd (handle_control request c) = c\<lparr>motor_queue := motor_queue (snd (handle_control request c))\<rparr>"
proof (intro conjI impI)
  assume "\<exists>v \<in> set (speeds request). \<not> validate_speed v"
  then show "fst (fst (handle_control request c)) \<noteq> 200"
    by (auto simp: handle_control_def control_error_status split: control_request.splits field.splits)
next
  assume "\<exists>v \<in> set (speeds request). \<not> validate_speed v"
  then show "snd (handle_control request c) = c"
    by (auto simp: handle_control_def split: control_request.splits field.splits)
next
  assume "mode c \<noteq> ''manual''"
  then show "handle_control request c = ((400, ''Not in manual mode''), c)"
    by (simp add: handle_control_def)
next
  assume "motor_queue (snd (handle_control request c)) \<noteq> motor_queue c"
  then show "mode c = ''manual''"
    by (auto simp: handle_control_def split: if_splits)
next
  assume "motor_queue (snd (handle_control request c)) \<noteq> motor_queue c"
  then show "\<exists>l r. request = Json (Number l) (Number r) \<and> validate_speed l \<and> validate_speed r \<and>
             motor_queue (snd (handle_control request c)) = motor_queue c @ [Move l r]"
    by (auto simp: handle_control_def split: if_splits control_request.splits field.splits)
next
  assume "mode c = ''manual'' \<and> validate_speed l \<and> validate_speed r"
  then show "handle_control (Json (Number l) (Number r)) c =
        ((200, ''OK''), c\<lparr>motor_queue := motor_queue c @ [Move l r]\<rparr>)"
    by (simp add: handle_control_def)
next
  show "snd (handle_control request c) = c\<lparr>motor_queue := motor_queue (snd (handle_control request c))\<rparr>"
    by (auto simp: handle_control_def split: control_request.splits field.splits)
qed

text \<open>
  The four cases at concrete requests: left = 1.5 in manual mode is rejected; 0.5, 0.5 in
  explore mode is answered "Not in manual mode"; 0.5, 0.5 in manual mode changes the motor
  queue, and is accepted with one \<open>Move\<close> on the queue.
\<close>

theorem handle_control_validation_witness:
  "fst (fst (handle_control (Json (Number (3 / 2)) (Number (1 / 2))) controller_start)) \<noteq> 200 \<and>
   snd (handle_control (Json (Number (3 / 2)) (Number (1 / 2))) controller_start) = controller_start \<and>
   handle_control (Json (Number (1 / 2)) (Number (1 / 2))) (after [SetMode (NewMode ''explore'')]) =
     ((400, ''Not in manual mode''), after [SetMode (NewMode ''explore'')]) \<and>
   motor_queue (snd (handle_control (Json (Number (1 / 2)) (Number (1 / 2))) controller_start)) =
     motor_queue controller_start @ [Move (1 / 2) (1 / 2)] \<and>
   handle_control (Json (Number (1 / 2)) (Number (1 / 2))) controller_start =
     ((200, ''OK''), controller_start\<lparr>motor_queue := [Move (1 / 2) (1 / 2)]\<rparr>)"
proof -
  have m: "mode (after [SetMode (NewMode ''explore'')]) \<noteq> ''manual''"
    by (simp add: after_def handle_mode_def controller_start_def)
  have s: "mode controller_start = ''manual''" "motor_queue controller_start = []"
    by (simp_all add: controller_start_def)
  have v: "\<exists>v \<in> set (speeds (Json (Number (3 / 2)) (Number (1 / 2)))). \<not> validate_speed v"
    "validate_speed (1 / 2)"
    by (simp_all add: validate_speed_def)
  have q: "motor_queue (snd (handle_control (Json (Number (1 / 2)) (Number (1 / 2))) controller_start)) \<noteq>
      motor_queue controller_start"
    by (simp add: handle_control_def controller_start_def validate_speed_def)
  show ?thesis
    using handle_control_validation[of "Json (Number (3 / 2)) (Number (1 / 2))" controller_start "1 / 2" "1 / 2"]
      handle_control_validation[of "Json (Number (1 / 2)) (Number (1 / 2))" "after [SetMode (NewMode ''explore'')]" "1 / 2" "1 / 2"]
      handle_control_validation[of "Json (Number (1 / 2)) (Number (1 / 2))" controller_start "1 / 2" "1 / 2"]
      m s v q
    by auto
qed

lemma handle_mode_motor_queue: "motor_queue (snd (handle_mode request c)) = motor_queue c"
  by (auto simp: handle_mode_def stop_explorer_def Let_def split: mode_request.splits option.splits)

lemma handle_emergency_forwards:
  "motor_queue (snd (handle_emergency c)) = motor_queue c @ [EmergencyStop] \<and>
   mode (snd (handle_emergency c)) = ''manual'' \<and>
   processes (snd (handle_emergency c)) ''explorer'' = None"
  by (auto simp: handle_emergency_def stop_explorer_def Let_def split: option.splits)

text \<open>
  C4. From the starting state, a switch to explore and then a set-mode request for manual:
  the mode is manual again, the explorer is terminated and forgotten, and the motor queue
  is still empty, so no emergency stop was forwarded (\<open>handle_mode\<close> never writes the
  motor queue). The same switch through the emergency request does forward one.
\<close>

theorem set_mode_manual_forwards_no_stop:
  "mode (after [SetMode (NewMode ''explore'')]) = ''explore'' \<and>
   started (after [SetMode (NewMode ''explore'')]) = [3] \<and>
   handle_mode (NewMode ''manual'') (after [SetMode (NewMode ''explore'')]) =
     ((200, ''Mode changed to manual''),
      controller_start\<lparr>created := 4\<rparr>) \<and>
   motor_queue (after [SetMode (NewMode ''explore''), SetMode (NewMode ''manual'')]) = [] \<and>
   motor_queue (after [SetMode (NewMode ''explore''), Emergency]) = [EmergencyStop]"
  by (simp add: after_def handle_mode_def handle_emergency_def stop_explorer_def controller_start_def Let_def)

section \<open>Properties of the motor worker\<close>

lemma release_all_eq: "release_all pins tr = tr @ map ReleaseLine pins"
  by (induction pins arbitrary: tr) simp_all

lemma motor_finally_eq:
  "motor_finally hw tr =
     (if hw tr StopMotors then Escaped (tr @ [StopMotors])
      else Returned (tr @ StopMotors # map ReleaseLine motor_pins))"
  by (simp add: motor_finally_def release_all_eq)

text \<open>
  Where the loop is left, by the stop event or by an exception of a dispatched command,
  the worker calls the emergency stop; when that call returns, it calls release on each of
  the six lines, whatever the releases do.
\<close>

lemma motor_run_cleanup:
  "motor_run hw False ticks =
     (case motor_loop hw ticks [] of
        InLoop tr \<Rightarrow> Running tr
      | LeftLoop tr \<Rightarrow> (if hw tr StopMotors then Escaped (tr @ [StopMotors])
                       else Returned (tr @ StopMotors # map ReleaseLine motor_pins))
      | Raised tr \<Rightarrow> (if hw tr StopMotors then Escaped (tr @ [StopMotors])
                       else Returned (tr @ StopMotors # map ReleaseLine motor_pins)))"
  by (simp add: motor_run_def motor_finally_eq split: loop.splits)

lemma release_calls_append: "release_calls (a @ b) = release_calls a @ release_calls b"
  by (simp add: release_calls_def)

lemma release_calls_map: "release_calls (map ReleaseLine pins) = pins"
  by (induction pins) (simp_all add: release_calls_def)

lemma motor_loop_no_release:
  "release_calls (loop_state (motor_loop hw ticks tr)) = release_calls tr"
proof (induction hw ticks tr rule: motor_loop.induct)
  case (4 hw cmd ticks tr)
  have "release_calls [dispatch cmd] = []" by (cases cmd) (simp_all add: release_calls_def)
  with 4 show ?case by (simp add: release_calls_append)
qed simp_all

lemma motor_run_releases_all:
  assumes "motor_run hw False ticks = Returned tr"
  shows "release_calls tr = motor_pins"
proof -
  let ?tr0 = "loop_state (motor_loop hw ticks [])"
  have none: "release_calls ?tr0 = []"
    using motor_loop_no_release[of hw ticks "[]"] by (simp add: release_calls_def)
  have "tr = ?tr0 @ StopMotors # map ReleaseLine motor_pins"
    using assms unfolding motor_run_cleanup
    by (cases "motor_loop hw ticks []") (simp_all split: if_splits)
  then have "release_calls tr = release_calls ?tr0 @ release_calls (StopMotors # map ReleaseLine motor_pins)"
    by (simp only: release_calls_append)
  also have "release_calls (StopMotors # map ReleaseLine motor_pins) = motor_pins"
    using release_calls_map[of motor_pins] by (simp add: release_calls_def)
  finally show ?thesis using none by simp
qed

lemma motor_ok_example:
  "motor_run (\<lambda>tr c. False) False [Item (Move (1 / 2) (1 / 2)), StopSet]
     = Returned [SetMotors (1 / 2) (1 / 2), StopMotors, ReleaseLine 17, ReleaseLine 27, ReleaseLine 4,
         ReleaseLine 5, ReleaseLine 6, ReleaseLine 13]"
  by (simp add: motor_run_def motor_finally_def motor_pins_def LEFT_MOTOR_FWD_def LEFT_MOTOR_BWD_def
     LEFT_MOTOR_EN_def RIGHT_MOTOR_FWD_def RIGHT_MOTOR_BWD_def RIGHT_MOTOR_EN_def)

text \<open>
  C1. On hardware where the emergency stop raises: an emergency-stop command makes the
  dispatch raise, the handler logs, and the \<^verbatim>\<open>finally\<close> block's own emergency stop
  raises again, outside every \<^verbatim>\<open>try\<close>; the exception leaves \<^verbatim>\<open>run\<close> and no line
  is released. The same happens when the loop is left by the stop event, or after a move.
\<close>

theorem motor_stop_raises_no_release:
  "motor_run (\<lambda>tr c. c = StopMotors) False [Item EmergencyStop] = Escaped [StopMotors, StopMotors] \<and>
   release_calls [StopMotors, StopMotors] = [] \<and>
   motor_run (\<lambda>tr c. c = StopMotors) False [StopSet] = Escaped [StopMotors] \<and>
   motor_run (\<lambda>tr c. c = StopMotors) False [Item (Move (1 / 2) (1 / 2)), StopSet]
     = Escaped [SetMotors (1 / 2) (1 / 2), StopMotors]"
  by (simp add: motor_run_def motor_finally_def release_calls_def)

section \<open>Properties of the scanner's retry loop\<close>

lemma lidar_stream_raises:
  "lidar_stream r s = Inl s1 \<Longrightarrow> ending r = StreamRaises \<and> lidar s1 = lidar s"
  by (auto simp: lidar_stream_def Let_def split: if_splits)

lemma lidar_try_raises:
  "lidar_try hw r s = Inl s1 \<Longrightarrow>
     (lidar s = None \<and> init_lidar hw (calls s) = Inl (calls s1) \<and> lidar s1 = None) \<or>
     (ending r = StreamRaises \<and> lidar s1 \<noteq> None \<and> \<not> (lidar s = None \<and> isl (init_lidar hw (calls s))))"
  by (auto simp: lidar_try_def split: if_splits sum.splits dest: lidar_stream_raises)

lemma lidar_try_connecting:
  "lidar_try hw r s = Inl s1 \<Longrightarrow> (lidar s1 = None) = (lidar s = None \<and> isl (init_lidar hw (calls s)))"
  by (auto dest: lidar_try_raises)

lemma cleanup_none: "cleanup_lidar hw None tr = tr"
  by (simp add: cleanup_lidar_def)

lemma cleanup_some:
  "l \<noteq> None \<Longrightarrow>
     \<exists>rest. cleanup_lidar hw l tr = tr @ StopMotor # rest \<and>
       (hw tr StopMotor \<or> hw (tr @ [StopMotor]) StopScan \<or> rest = [StopScan, Disconnect])"
  by (auto simp: cleanup_lidar_def)

lemma on_error_eq:
  "on_error hw s =
     (retry_count s + 1 < max_retries,
      s\<lparr>retry_count := retry_count s + 1, lidar := None,
        calls := cleanup_lidar hw (lidar s) (calls s) @
          (if retry_count s + 1 < max_retries then [Sleep retry_delay] else [])\<rparr>)"
  by (simp add: on_error_def Let_def)

lemma lidar_loop_exhausted:
  "max_retries \<le> retry_count s \<Longrightarrow> lidar_loop hw (r # rounds) s = LeftLoop s"
  by simp

lemma lidar_loop_raise:
  "\<not> stop_set r \<Longrightarrow> retry_count s < max_retries \<Longrightarrow> lidar_try hw r s = Inl s1 \<Longrightarrow>
     lidar_loop hw (r # rounds) s =
       (if retry_count s1 + 1 < max_retries then lidar_loop hw rounds (snd (on_error hw s1))
        else LeftLoop (snd (on_error hw s1)))"
  by (simp add: on_error_eq)

text \<open>
  What the handler does in a round where an exception reaches it, while connecting or
  while streaming: the retry counter goes up by one and the variable \<^verbatim>\<open>lidar\<close> is
  None afterwards; the teardown is called with the variable as it is, which is None exactly
  when the exception came from \<^verbatim>\<open>_init_lidar\<close>, so that then no teardown call is made,
  and otherwise stop motor is called, then stop and disconnect unless an earlier call
  raised; the worker sleeps the delay of 3 and goes on to the next round only when the
  counter is still under 5, and otherwise leaves the loop, as it would on any later round.
  A connection that succeeds sets the counter back to 0 (in \<open>lidar_try\<close>).
\<close>

lemma lidar_retry_policy:
  assumes "\<not> stop_set r" and "retry_count s < max_retries" and "lidar_try hw r s = Inl s1"
  shows "retry_count (snd (on_error hw s1)) = retry_count s1 + 1 \<and>
         lidar (snd (on_error hw s1)) = None \<and>
         calls (snd (on_error hw s1)) =
           cleanup_lidar hw (lidar s1) (calls s1) @
             (if retry_count s1 + 1 < max_retries then [Sleep retry_delay] else []) \<and>
         (lidar s1 = None) = (lidar s = None \<and> isl (init_lidar hw (calls s))) \<and>
         (if lidar s1 = None then cleanup_lidar hw (lidar s1) (calls s1) = calls s1
          else \<exists>rest. cleanup_lidar hw (lidar s1) (calls s1) = calls s1 @ StopMotor # rest \<and>
                 (hw (calls s1) StopMotor \<or> hw (calls s1 @ [StopMotor]) StopScan \<or>
                  rest = [StopScan, Disconnect])) \<and>
         lidar_loop hw (r # rounds) s =
           (if retry_count s1 + 1 < max_retries then lidar_loop hw rounds (snd (on_error hw s1))
            else LeftLoop (snd (on_error hw s1))) \<and>
         (if retry_count s1 + 1 < max_retries then True
          else lidar_loop hw (r' # rounds') (snd (on_error hw s1)) = LeftLoop (snd (on_error hw s1))) \<and>
         max_retries = 5 \<and> retry_delay = 3"
proof (intro conjI)
  show "lidar_loop hw (r # rounds) s =
           (if retry_count s1 + 1 < max_retries then lidar_loop hw rounds (snd (on_error hw s1))
            else LeftLoop (snd (on_error hw s1)))"
    by (rule lidar_loop_raise[OF assms])
  show "(lidar s1 = None) = (lidar s = None \<and> isl (init_lidar hw (calls s)))"
    by (rule lidar_try_connecting[OF assms(3)])
  show "if lidar s1 = None then cleanup_lidar hw (lidar s1) (calls s1) = calls s1
          else \<exists>rest. cleanup_lidar hw (lidar s1) (calls s1) = calls s1 @ StopMotor # rest \<and>
                 (hw (calls s1) StopMotor \<or> hw (calls s1 @ [StopMotor]) StopScan \<or>
                  rest = [StopScan, Disconnect])"
    using cleanup_some[of "lidar s1" hw "calls s1"] by (simp add: cleanup_none)
  show "if retry_count s1 + 1 < max_retries then True
          else lidar_loop hw (r' # rounds') (snd (on_error hw s1)) = LeftLoop (snd (on_error hw s1))"
    by (simp add: on_error_eq)
qed (simp_all add: on_error_eq max_retries_def retry_delay_def)

lemma lidar_stream_example:
  "lidar_run (\<lambda>tr c. False) [Round False [[(20, 0, 1000), (3, 90, 1000)]] StreamRaises, Round True [] StreamEnds] =
     Returned \<lparr>retry_count = 1, lidar = None, scan_sent = [[(0, 1)]],
       calls = [NewRPLidar, StopScan, Disconnect, Sleep 1, Connect, StartMotor, Sleep 1, GetInfo,
                GetHealth, StopMotor, StopScan, Disconnect, Sleep 3]\<rparr>"
  by (simp add: lidar_run_def lidar_start_def lidar_try_def lidar_stream_def init_lidar_def
      init_calls_def on_error_def cleanup_lidar_def max_retries_def retry_delay_def Let_def
      stream_scan_def process_scan_def min_quality_def)

text \<open>
  Five connection attempts in a row whose health query raises: the worker gives up and
  returns, having never called stop motor, with the device connected and its motor running.
\<close>

lemma lidar_exhaustion_example:
  "(case lidar_run (\<lambda>tr c. c = GetHealth)
       [Round False [] StreamEnds, Round False [] StreamEnds, Round False [] StreamEnds,
        Round False [] StreamEnds, Round False [] StreamEnds, Round False [] StreamEnds] of
      Returned s \<Rightarrow> retry_count s = 5 \<and> lidar s = None \<and> StopMotor \<notin> set (calls s) \<and>
        device_of (\<lambda>tr c. c = GetHealth) (calls s) = \<lparr>connected = True, motor_running = True\<rparr>
    | Running s \<Rightarrow> False
    | Escaped s \<Rightarrow> False)"
  by (simp add: lidar_run_def lidar_start_def lidar_try_def init_lidar_def init_calls_def
      on_error_def cleanup_lidar_def max_retries_def retry_delay_def device_of_def Let_def)

text \<open>
  C8. A device whose health query raises at the first connection attempt: the handle was
  made, the device connected and its motor started inside \<^verbatim>\<open>_init_lidar\<close>, the
  exception reaches the handler with the variable \<^verbatim>\<open>lidar\<close> still None, the counter
  becomes 1 and the worker sleeps before the retry; the handler's teardown makes no call,
  and the device is left connected with its motor running. After an exception while
  streaming the same handler does stop the motor, stop and disconnect.
\<close>

theorem lidar_connect_failure_leaves_device:
  "lidar_loop (\<lambda>tr c. c = GetHealth) [Round False [] StreamEnds] lidar_start =
     InLoop \<lparr>retry_count = 1, lidar = None, scan_sent = [],
       calls = [NewRPLidar, StopScan, Disconnect, Sleep 1, Connect, StartMotor, Sleep 1, GetInfo,
                GetHealth, Sleep 3]\<rparr> \<and>
   device_of (\<lambda>tr c. c = GetHealth)
     [NewRPLidar, StopScan, Disconnect, Sleep 1, Connect, StartMotor, Sleep 1, GetInfo,
      GetHealth, Sleep 3] = \<lparr>connected = True, motor_running = True\<rparr> \<and>
   lidar_loop (\<lambda>tr c. False) [Round False [] StreamRaises] lidar_start =
     InLoop \<lparr>retry_count = 1, lidar = None, scan_sent = [],
       calls = [NewRPLidar, StopScan, Disconnect, Sleep 1, Connect, StartMotor, Sleep 1, GetInfo,
                GetHealth, StopMotor, StopScan, Disconnect, Sleep 3]\<rparr> \<and>
   device_of (\<lambda>tr c. False)
     [NewRPLidar, StopScan, Disconnect, Sleep 1, Connect, StartMotor, Sleep 1, GetInfo,
      GetHealth, StopMotor, StopScan, Disconnect, Sleep 3] = \<lparr>connected = False, motor_running = False\<rparr>"
  by (simp add: lidar_start_def lidar_try_def lidar_stream_def init_lidar_def init_calls_def
      on_error_def cleanup_lidar_def max_retries_def retry_delay_def device_of_def Let_def)

end
